theory Spec2Isabelle
  imports Main "HOL-Library.AList"
begin

section \<open>The syntax tree as the rule reads it\<close>

text \<open>
  The rule \<^verbatim>\<open>prefer-inline-type-parameters\<close> reads a TypeScript syntax tree through
  \<^verbatim>\<open>node.type\<close>, \<^verbatim>\<open>node.parent\<close>, \<^verbatim>\<open>node.range\<close> and a few fields that
  depend on the node type. A node is modelled with its parent link inside it, so the
  upward walks of the source are structural recursions. Object identity (\<^verbatim>\<open>===\<close>,
  \<^verbatim>\<open>includes\<close>) is the explicit field \<open>nid\<close>.

  The fields a node type carries are the ones the parser's node types guarantee:
  \<^item> a type alias has \<^verbatim>\<open>id.name\<close>, an optional \<^verbatim>\<open>typeParameters\<close> (kept as its
    truthiness) and \<^verbatim>\<open>typeAnnotation\<close> (kept as the child's range, the only thing read
    from it);
  \<^item> an interface has \<^verbatim>\<open>id.name\<close>, \<^verbatim>\<open>typeParameters\<close> and \<^verbatim>\<open>body\<close> (its range);
  \<^item> a type reference has \<^verbatim>\<open>typeName\<close>: \<open>Some n\<close> when it is an \<^verbatim>\<open>Identifier\<close>
    named \<open>n\<close>, \<open>None\<close> for a qualified name;
  \<^item> a type annotation has \<^verbatim>\<open>typeAnnotation\<close> (its range);
  \<^item> the three function node types have \<^verbatim>\<open>params\<close>, kept as the list of the
    identities of the parameter nodes;
  \<^item> a variable declarator has \<^verbatim>\<open>init\<close> (null, or a node of which the type and the
    \<^verbatim>\<open>params\<close> are read).

  The rule reads no other node type. Two are named all the same, because they use a
  declared name as a type without being type references: the entry of an interface's
  \<^verbatim>\<open>extends\<close> clause and the entry of a class's \<^verbatim>\<open>implements\<close> clause, each with
  its \<^verbatim>\<open>expression\<close> (\<open>Some n\<close> when it is an identifier named \<open>n\<close>). Every other
  node is an \<open>OtherNode\<close>.
\<close>

type_synonym span = "nat \<times> nat"

datatype kind =
    Program
  | TSTypeAliasDeclaration string bool span
  | TSInterfaceDeclaration string bool span
  | TSTypeReference "string option"
  | TSTypeAnnotation span
  | ObjectPattern
  | ArrayPattern
  | Identifier
  | AssignmentPattern
  | FunctionDeclaration "nat list"
  | FunctionExpression "nat list"
  | ArrowFunctionExpression "nat list"
  | VariableDeclarator "kind option"
  | ExportNamedDeclaration
  | ExportDefaultDeclaration
  | TSInterfaceHeritage "string option"
  | TSClassImplements "string option"
  | OtherNode

datatype node = Node (nid: nat) (kind: kind) (nrange: span) (parent: "node option")

text \<open>
  \<^verbatim>\<open>sourceCode\<close>: the program node (\<^verbatim>\<open>sourceCode.ast\<close>) and the text of the file
  (\<^verbatim>\<open>sourceCode.getText()\<close>), a list of characters that ranges index from 0.
\<close>

record sourceCode =
  ast :: node
  src_text :: string

text \<open>
  A fix is a list of edits, each a range with its replacement text;
  \<^verbatim>\<open>fixer.removeRange(r)\<close> is \<open>(r, [])\<close> and \<^verbatim>\<open>fixer.replaceText(n, t)\<close> is
  \<open>(n.range, t)\<close>. A report carries the declaration node, the \<^verbatim>\<open>typeName\<close> of its
  message data and the result of its \<^verbatim>\<open>fix\<close> function (\<open>None\<close> for null).
\<close>

type_synonym edit = "span \<times> string"

record diagnostic =
  d_node :: node
  typeName :: string
  d_fix :: "edit list option"

text \<open>
  The three maps of \<^verbatim>\<open>create\<close>. A JavaScript \<^verbatim>\<open>Map\<close> iterates in insertion order and
  \<^verbatim>\<open>set\<close> on a present key keeps its place: an association list with
  \<^const>\<open>AList.update\<close> and \<^const>\<open>map_of\<close>.
\<close>

record state =
  typeUsageCount :: "(string \<times> nat) list"
  typeDefinitions :: "(string \<times> node) list"
  typeReferences :: "(string \<times> node list) list"

definition init_state :: state where
  "init_state = \<lparr>typeUsageCount = [], typeDefinitions = [], typeReferences = []\<rparr>"

section \<open>The visitor\<close>

definition record_definition :: "state \<Rightarrow> string \<Rightarrow> node \<Rightarrow> state" where
  "record_definition st name node =
     st\<lparr>typeDefinitions := AList.update name node (typeDefinitions st),
        typeUsageCount :=
          (if map_of (typeUsageCount st) name \<noteq> None then typeUsageCount st
           else AList.update name 0 (typeUsageCount st))\<rparr>"

definition on_TSTypeAliasDeclaration :: "state \<Rightarrow> node \<Rightarrow> state" where
  "on_TSTypeAliasDeclaration st node =
     (case kind node of
        TSTypeAliasDeclaration name tps ann \<Rightarrow>
          if tps then st else record_definition st name node
      | _ \<Rightarrow> st)"

definition on_TSInterfaceDeclaration :: "state \<Rightarrow> node \<Rightarrow> state" where
  "on_TSInterfaceDeclaration st node =
     (case kind node of
        TSInterfaceDeclaration name tps body \<Rightarrow>
          if tps then st else record_definition st name node
      | _ \<Rightarrow> st)"

definition on_TSTypeReference :: "state \<Rightarrow> node \<Rightarrow> state" where
  "on_TSTypeReference st node =
     (case kind node of
        TSTypeReference (Some name) \<Rightarrow>
          (let currentCount = (case map_of (typeUsageCount st) name of None \<Rightarrow> 0 | Some c \<Rightarrow> c);
               refs = (case map_of (typeReferences st) name of None \<Rightarrow> [] | Some l \<Rightarrow> l)
           in st\<lparr>typeUsageCount := AList.update name (currentCount + 1) (typeUsageCount st),
                 typeReferences := AList.update name (refs @ [node]) (typeReferences st)\<rparr>)
      | _ \<Rightarrow> st)"

text \<open>
  The harness calls the handler whose selector is the type of the node it enters, for
  each node of the tree in traversal order; \<open>traverse\<close> is the state when it reaches
  \<^verbatim>\<open>Program:exit\<close>.
\<close>

definition visit :: "state \<Rightarrow> node \<Rightarrow> state" where
  "visit st node =
     (case kind node of
        TSTypeAliasDeclaration _ _ _ \<Rightarrow> on_TSTypeAliasDeclaration st node
      | TSInterfaceDeclaration _ _ _ \<Rightarrow> on_TSInterfaceDeclaration st node
      | TSTypeReference _ \<Rightarrow> on_TSTypeReference st node
      | _ \<Rightarrow> st)"

definition traverse :: "node list \<Rightarrow> state" where
  "traverse order = foldl visit init_state order"

section \<open>The helper functions\<close>

text \<open>
  The two inner loops of \<^verbatim>\<open>isInFunctionParameter\<close> differ only in spelling
  (\<^verbatim>\<open>includes(parent)\<close> and \<^verbatim>\<open>some((p) => p === parent)\<close>): \<open>searchParams\<close> is
  that loop, \<open>Some b\<close> when it returns \<open>b\<close> and \<open>None\<close> when it runs off the root.
\<close>

fun searchParams :: "node \<Rightarrow> node option \<Rightarrow> bool option" where
  "searchParams par None = None"
| "searchParams par (Some (Node i k r p)) =
     (case k of
        FunctionDeclaration ps \<Rightarrow> Some (nid par \<in> set ps)
      | FunctionExpression ps \<Rightarrow> Some (nid par \<in> set ps)
      | ArrowFunctionExpression ps \<Rightarrow> Some (nid par \<in> set ps)
      | VariableDeclarator init \<Rightarrow>
          (case init of
             Some (FunctionExpression ps) \<Rightarrow> Some (nid par \<in> set ps)
           | Some (ArrowFunctionExpression ps) \<Rightarrow> Some (nid par \<in> set ps)
           | _ \<Rightarrow> searchParams par p)
      | _ \<Rightarrow> searchParams par p)"

definition isPatternOrIdentifier :: "kind \<Rightarrow> bool" where
  "isPatternOrIdentifier k = (k = ObjectPattern \<or> k = ArrayPattern \<or> k = Identifier)"

fun walkUp :: "node option \<Rightarrow> bool" where
  "walkUp None = False"
| "walkUp (Some (Node i k r p)) =
     (case k of
        TSTypeAnnotation ta \<Rightarrow>
          (case p of
             None \<Rightarrow> walkUp p
           | Some par \<Rightarrow>
               if isPatternOrIdentifier (kind par) then
                 (case searchParams par (parent par) of
                    Some b \<Rightarrow> b
                  | None \<Rightarrow> walkUp p)
               else walkUp p)
      | _ \<Rightarrow> walkUp p)"

definition isInFunctionParameter :: "node \<Rightarrow> bool" where
  "isInFunctionParameter node = walkUp (Some node)"

definition isExported :: "node \<Rightarrow> bool" where
  "isExported node =
     (case parent node of
        None \<Rightarrow> False
      | Some p \<Rightarrow> kind p = ExportNamedDeclaration \<or> kind p = ExportDefaultDeclaration)"

fun getTopLevelStatement :: "node \<Rightarrow> node \<Rightarrow> node" where
  "getTopLevelStatement (Node i k r None) programNode = Node i k r None"
| "getTopLevelStatement (Node i k r (Some p)) programNode =
     (if nid p \<noteq> nid programNode then getTopLevelStatement p programNode
      else Node i k r (Some p))"

text \<open>
  \<^verbatim>\<open>sourceCode.getText(node)\<close> is \<^verbatim>\<open>text.slice(node.range[0], node.range[1])\<close>;
  \<^verbatim>\<open>slice\<close> clamps both ends to the text and is empty when the end is not after the
  start, as \<^const>\<open>take\<close> and \<^const>\<open>drop\<close> are.
\<close>

definition slice :: "string \<Rightarrow> nat \<Rightarrow> nat \<Rightarrow> string" where
  "slice s a b = take (b - a) (drop a s)"

definition getText :: "sourceCode \<Rightarrow> span \<Rightarrow> string" where
  "getText sc r = slice (src_text sc) (fst r) (snd r)"

definition getTypeBody :: "node \<Rightarrow> sourceCode \<Rightarrow> string option" where
  "getTypeBody typeDefNode sc =
     (case kind typeDefNode of
        TSTypeAliasDeclaration name tps ann \<Rightarrow> Some (getText sc ann)
      | TSInterfaceDeclaration name tps body \<Rightarrow> Some (getText sc body)
      | _ \<Rightarrow> None)"

text \<open>The end of the removed range: one line terminator after the statement is taken.\<close>

definition trimmedEnd :: "string \<Rightarrow> nat \<Rightarrow> nat" where
  "trimmedEnd txt endPos =
     (if endPos < length txt \<and> txt ! endPos = CHR 0x0A then endPos + 1
      else if endPos < length txt \<and> txt ! endPos = CHR 0x0D then
        (if endPos + 1 < length txt \<and> txt ! (endPos + 1) = CHR 0x0A then endPos + 2
         else endPos + 1)
      else endPos)"

text \<open>The \<^verbatim>\<open>fix\<close> function of the report; a falsy \<^verbatim>\<open>typeBody\<close> is null or the empty string.\<close>

definition fix_edits :: "sourceCode \<Rightarrow> node \<Rightarrow> node \<Rightarrow> edit list option" where
  "fix_edits sc typeDefNode reference =
     (let typeDefStatement = getTopLevelStatement typeDefNode (ast sc) in
      case getTypeBody typeDefNode sc of
        None \<Rightarrow> None
      | Some typeBody \<Rightarrow>
          if typeBody = [] then None
          else
            (case parent reference of
               None \<Rightarrow> None
             | Some typeReferenceNode \<Rightarrow>
                 (case kind typeReferenceNode of
                    TSTypeAnnotation ta \<Rightarrow>
                      Some [((fst (nrange typeDefStatement),
                              trimmedEnd (src_text sc) (snd (nrange typeDefStatement))), []),
                            (ta, typeBody)]
                  | _ \<Rightarrow> None)))"

section \<open>The end of the traversal\<close>

definition report_entry :: "sourceCode \<Rightarrow> state \<Rightarrow> string \<times> nat \<Rightarrow> diagnostic option" where
  "report_entry sc st entry =
     (case entry of (name, count) \<Rightarrow>
        (case map_of (typeDefinitions st) name of
           None \<Rightarrow> None
         | Some typeDefNode \<Rightarrow>
             if count \<noteq> 1 then None
             else if isExported typeDefNode then None
             else
               (case map_of (typeReferences st) name of
                  None \<Rightarrow> None
                | Some references \<Rightarrow>
                    if length references \<noteq> 1 then None
                    else
                      (let reference = hd references in
                       if \<not> isInFunctionParameter reference then None
                       else Some \<lparr>d_node = typeDefNode, typeName = name,
                                  d_fix = fix_edits sc typeDefNode reference\<rparr>))))"

definition Program_exit :: "sourceCode \<Rightarrow> state \<Rightarrow> diagnostic list" where
  "Program_exit sc st = List.map_filter (report_entry sc st) (typeUsageCount st)"

definition run :: "sourceCode \<Rightarrow> node list \<Rightarrow> diagnostic list" where
  "run sc order = Program_exit sc (traverse order)"

section \<open>What the maps hold\<close>

definition usageCount :: "state \<Rightarrow> string \<Rightarrow> nat" where
  "usageCount st name = (case map_of (typeUsageCount st) name of None \<Rightarrow> 0 | Some c \<Rightarrow> c)"

definition referenceList :: "state \<Rightarrow> string \<Rightarrow> node list" where
  "referenceList st name = (case map_of (typeReferences st) name of None \<Rightarrow> [] | Some l \<Rightarrow> l)"

text \<open>
  The nodes of a traversal that the handlers act on: the references to a name (type
  references whose \<^verbatim>\<open>typeName\<close> is an identifier of that name) and the declarations
  of it that are recorded (aliases and interfaces without type parameters).
\<close>

definition isReferenceTo :: "string \<Rightarrow> node \<Rightarrow> bool" where
  "isReferenceTo name n = (kind n = TSTypeReference (Some name))"

definition declares :: "string \<Rightarrow> node \<Rightarrow> bool" where
  "declares name n =
     (case kind n of
        TSTypeAliasDeclaration nm tps ann \<Rightarrow> nm = name \<and> \<not> tps
      | TSInterfaceDeclaration nm tps body \<Rightarrow> nm = name \<and> \<not> tps
      | _ \<Rightarrow> False)"

definition declaredName :: "node \<Rightarrow> string option" where
  "declaredName n =
     (case kind n of
        TSTypeAliasDeclaration nm tps ann \<Rightarrow> Some nm
      | TSInterfaceDeclaration nm tps body \<Rightarrow> Some nm
      | _ \<Rightarrow> None)"

definition hasTypeParameters :: "node \<Rightarrow> bool" where
  "hasTypeParameters n =
     (case kind n of
        TSTypeAliasDeclaration nm tps ann \<Rightarrow> tps
      | TSInterfaceDeclaration nm tps body \<Rightarrow> tps
      | _ \<Rightarrow> False)"

definition referencesTo :: "string \<Rightarrow> node list \<Rightarrow> node list" where
  "referencesTo name order = filter (isReferenceTo name) order"

definition declarationsOf :: "string \<Rightarrow> node list \<Rightarrow> node list" where
  "declarationsOf name order = filter (declares name) order"

text \<open>
  The uses of a name in type position: its type references, and the heritage clauses
  (\<^verbatim>\<open>extends\<close> of an interface, \<^verbatim>\<open>implements\<close> of a class) that name it.
\<close>

definition isTypePositionUse :: "string \<Rightarrow> node \<Rightarrow> bool" where
  "isTypePositionUse name n =
     (kind n = TSTypeReference (Some name) \<or> kind n = TSInterfaceHeritage (Some name) \<or>
      kind n = TSClassImplements (Some name))"

definition typePositionUses :: "string \<Rightarrow> node list \<Rightarrow> node list" where
  "typePositionUses name order = filter (isTypePositionUse name) order"

text \<open>
  What \<^verbatim>\<open>Program:exit\<close> reports for a name, read off the traversal instead of the
  maps (\<open>run_named\<close> below proves it).
\<close>

definition reportFor :: "sourceCode \<Rightarrow> node list \<Rightarrow> string \<Rightarrow> diagnostic option" where
  "reportFor sc order name =
     (if declarationsOf name order = [] then None
      else if isExported (last (declarationsOf name order)) then None
      else
        (case referencesTo name order of
           [r] \<Rightarrow>
             if isInFunctionParameter r
             then Some \<lparr>d_node = last (declarationsOf name order), typeName = name,
                        d_fix = fix_edits sc (last (declarationsOf name order)) r\<rparr>
             else None
         | _ \<Rightarrow> None))"

section \<open>The notions of the specification\<close>

text \<open>
  The specification's parameter-type-annotation: an annotation attached to an object or
  array pattern or to an identifier that is one of the declared parameters of a function
  (a function declaration, a function expression or an arrow function, also as the
  initialiser of a variable declarator). The function is looked for among the nodes that
  enclose the parameter; in a tree it is the parameter's parent.
\<close>

fun ancestors :: "node option \<Rightarrow> node list" where
  "ancestors None = []"
| "ancestors (Some (Node i k r p)) = Node i k r p # ancestors p"

definition declaredParams :: "kind \<Rightarrow> nat list option" where
  "declaredParams k =
     (case k of
        FunctionDeclaration ps \<Rightarrow> Some ps
      | FunctionExpression ps \<Rightarrow> Some ps
      | ArrowFunctionExpression ps \<Rightarrow> Some ps
      | VariableDeclarator (Some (FunctionExpression ps)) \<Rightarrow> Some ps
      | VariableDeclarator (Some (ArrowFunctionExpression ps)) \<Rightarrow> Some ps
      | _ \<Rightarrow> None)"

definition declaresParameter :: "node \<Rightarrow> node \<Rightarrow> bool" where
  "declaresParameter p a =
     (case declaredParams (kind a) of None \<Rightarrow> False | Some ps \<Rightarrow> nid p \<in> set ps)"

definition declaredParameter :: "node \<Rightarrow> bool" where
  "declaredParameter p = list_ex (declaresParameter p) (ancestors (parent p))"

definition isTypeAnnotation :: "node \<Rightarrow> bool" where
  "isTypeAnnotation a = (case kind a of TSTypeAnnotation ta \<Rightarrow> True | _ \<Rightarrow> False)"

definition parameterAnnotation :: "node \<Rightarrow> bool" where
  "parameterAnnotation a =
     (isTypeAnnotation a \<and>
      (case parent a of
         None \<Rightarrow> False
       | Some p \<Rightarrow> isPatternOrIdentifier (kind p) \<and> declaredParameter p))"

definition insideParameterAnnotation :: "node \<Rightarrow> bool" where
  "insideParameterAnnotation r = list_ex parameterAnnotation (ancestors (Some r))"






text \<open>The reference is itself the type of an annotation (its parent is an annotation).\<close>

definition parentIsAnnotation :: "node \<Rightarrow> bool" where
  "parentIsAnnotation r = (case parent r of None \<Rightarrow> False | Some a \<Rightarrow> isTypeAnnotation a)"

text \<open>
  The line terminator that starts at a position of the text, as its length:
  CR LF is one terminator of two characters, LF or CR alone one of one character.
\<close>

fun terminatorLength :: "string \<Rightarrow> nat" where
  "terminatorLength (c # d # cs) =
     (if c = CHR 0x0A then 1
      else if c = CHR 0x0D then (if d = CHR 0x0A then 2 else 1)
      else 0)"
| "terminatorLength [c] = (if c = CHR 0x0A \<or> c = CHR 0x0D then 1 else 0)"
| "terminatorLength [] = 0"

definition lineTerminatorAt :: "string \<Rightarrow> nat \<Rightarrow> nat" where
  "lineTerminatorAt txt pos = terminatorLength (drop pos txt)"

text \<open>The span of the body of a declaration: \<^verbatim>\<open>typeAnnotation\<close> or \<^verbatim>\<open>body\<close>.\<close>

definition bodySpan :: "node \<Rightarrow> span option" where
  "bodySpan n =
     (case kind n of
        TSTypeAliasDeclaration nm tps ann \<Rightarrow> Some ann
      | TSInterfaceDeclaration nm tps body \<Rightarrow> Some body
      | _ \<Rightarrow> None)"

text \<open>
  The enclosing top-level statement of a declaration: the first node, from the declaration
  outwards, whose parent is the program node (or that has no parent).
\<close>

definition isTopLevel :: "node \<Rightarrow> node \<Rightarrow> bool" where
  "isTopLevel programNode n =
     (case parent n of None \<Rightarrow> True | Some p \<Rightarrow> nid p = nid programNode)"

definition enclosingStatement :: "node \<Rightarrow> node \<Rightarrow> node option" where
  "enclosingStatement n programNode = find (isTopLevel programNode) (ancestors (Some n))"

text \<open>
  The text after the fix, when the removed span and the replaced span do not overlap: the
  original text without the removed span and with the body in the place of the replaced
  span.
\<close>

definition fixedText :: "string \<Rightarrow> span \<Rightarrow> span \<Rightarrow> string \<Rightarrow> string" where
  "fixedText txt removed replaced body =
     (if snd removed \<le> fst replaced then
        take (fst removed) txt @ slice txt (snd removed) (fst replaced) @ body @
        drop (snd replaced) txt
      else
        take (fst replaced) txt @ body @ slice txt (snd replaced) (fst removed) @
        drop (snd removed) txt)"

text \<open>
  The span the fix removes: the statement and the line terminator that follows it.
\<close>

definition removedSpan :: "sourceCode \<Rightarrow> node \<Rightarrow> span" where
  "removedSpan sc stmt =
     (fst (nrange stmt),
      snd (nrange stmt) + lineTerminatorAt (src_text sc) (snd (nrange stmt)))"

text \<open>Two ranges overlap when they share a position.\<close>

definition overlap :: "span \<Rightarrow> span \<Rightarrow> bool" where
  "overlap r1 r2 = (fst r1 < snd r2 \<and> fst r2 < snd r1)"

text \<open>
  Modelled from the spec: the consumer of \<^verbatim>\<open>fixEdits\<close>, which is part of the
  reporting harness and not of this repository. It replaces each range with its
  replacement text in one pass over the original text, the edits ordered by range, and
  refuses edits that overlap (\<open>None\<close>).
\<close>

definition editBefore :: "edit \<Rightarrow> edit \<Rightarrow> bool" where
  "editBefore x e =
     (fst (fst x) < fst (fst e) \<or> (fst (fst x) = fst (fst e) \<and> snd (fst x) < snd (fst e)))"

fun insertEdit :: "edit \<Rightarrow> edit list \<Rightarrow> edit list" where
  "insertEdit e [] = [e]"
| "insertEdit e (x # xs) = (if editBefore x e then x # insertEdit e xs else e # x # xs)"

definition sortEdits :: "edit list \<Rightarrow> edit list" where
  "sortEdits es = foldr insertEdit es []"

fun applySorted :: "string \<Rightarrow> nat \<Rightarrow> edit list \<Rightarrow> string option" where
  "applySorted txt lastPos [] = Some (drop lastPos txt)"
| "applySorted txt lastPos (e # es) =
     (if fst (fst e) < lastPos then None
      else
        (case applySorted txt (snd (fst e)) es of
           None \<Rightarrow> None
         | Some rest \<Rightarrow> Some (slice txt lastPos (fst (fst e)) @ snd e @ rest)))"

definition applyEdits :: "string \<Rightarrow> edit list \<Rightarrow> string option" where
  "applyEdits txt es = applySorted txt 0 (sortEdits es)"

section \<open>Concrete syntax trees\<close>

text \<open>
  Small programs with the nodes the rule reads, positions counted from the text. Each
  node is numbered in the order the traversal enters it.
\<close>


























text \<open>
  A declaration used once, as a property type inside the type literal that annotates a parameter.
  \<^verbatim>\<open>
  type T = { a: string };
  function f(o: { i: T }) {}
\<close>
\<close>

definition literal_text :: string where
  "literal_text =
     ''type T = { a: string };'' @
     [CHR 0x0A] @
     ''function f(o: { i: T }) {}'' @
     [CHR 0x0A]"

definition literal_program :: node where
  "literal_program = Node 0 Program (0, 51) None"

definition literal_alias :: node where
  "literal_alias =
     Node 1 (TSTypeAliasDeclaration ''T'' False (9, 22))
       (0, 23) (Some literal_program)"

definition literal_function :: node where
  "literal_function = Node 2 (FunctionDeclaration [3]) (24, 50) (Some literal_program)"

definition literal_param :: node where
  "literal_param = Node 3 Identifier (35, 46) (Some literal_function)"

definition literal_annotation :: node where
  "literal_annotation = Node 4 (TSTypeAnnotation (38, 46)) (36, 46) (Some literal_param)"

definition literal_typeLiteral :: node where
  "literal_typeLiteral = Node 5 OtherNode (38, 46) (Some literal_annotation)"

definition literal_property :: node where
  "literal_property = Node 6 OtherNode (40, 44) (Some literal_typeLiteral)"

definition literal_propertyAnnotation :: node where
  "literal_propertyAnnotation =
     Node 7 (TSTypeAnnotation (43, 44))
       (41, 44) (Some literal_property)"

definition literal_reference :: node where
  "literal_reference =
     Node 8 (TSTypeReference (Some ''T''))
       (43, 44) (Some literal_propertyAnnotation)"

definition literal_source :: sourceCode where
  "literal_source = \<lparr>ast = literal_program, src_text = literal_text\<rparr>"

definition literal_order :: "node list" where
  "literal_order =
     [literal_program, literal_alias, literal_function, literal_param, literal_annotation,
      literal_typeLiteral, literal_property, literal_propertyAnnotation, literal_reference]"

text \<open>
  A declaration used once, as the type argument of a utility type that annotates a parameter.
  \<^verbatim>\<open>
  type T = { a: string };
  function f(o: Partial<T>) {}
\<close>
\<close>

definition utility_text :: string where
  "utility_text =
     ''type T = { a: string };'' @
     [CHR 0x0A] @
     ''function f(o: Partial<T>) {}'' @
     [CHR 0x0A]"

definition utility_program :: node where
  "utility_program = Node 0 Program (0, 53) None"

definition utility_alias :: node where
  "utility_alias =
     Node 1 (TSTypeAliasDeclaration ''T'' False (9, 22))
       (0, 23) (Some utility_program)"

definition utility_function :: node where
  "utility_function = Node 2 (FunctionDeclaration [3]) (24, 52) (Some utility_program)"

definition utility_param :: node where
  "utility_param = Node 3 Identifier (35, 48) (Some utility_function)"

definition utility_annotation :: node where
  "utility_annotation = Node 4 (TSTypeAnnotation (38, 48)) (36, 48) (Some utility_param)"

definition utility_partial :: node where
  "utility_partial =
     Node 5 (TSTypeReference (Some ''Partial''))
       (38, 48) (Some utility_annotation)"

definition utility_arguments :: node where
  "utility_arguments = Node 6 OtherNode (45, 48) (Some utility_partial)"

definition utility_reference :: node where
  "utility_reference = Node 7 (TSTypeReference (Some ''T'')) (46, 47) (Some utility_arguments)"

definition utility_source :: sourceCode where
  "utility_source = \<lparr>ast = utility_program, src_text = utility_text\<rparr>"

definition utility_order :: "node list" where
  "utility_order =
     [utility_program, utility_alias, utility_function, utility_param, utility_annotation,
      utility_partial, utility_arguments, utility_reference]"

text \<open>
  A declaration inside a function body, used once by a function of the same body.
  \<^verbatim>\<open>
  function outer() {
    type P = { a: string };
    function inner(p: P) {}
  }
\<close>
\<close>

definition nested_text :: string where
  "nested_text =
     ''function outer() {'' @
     [CHR 0x0A] @
     ''  type P = { a: string };'' @
     [CHR 0x0A] @
     ''  function inner(p: P) {}'' @
     [CHR 0x0A] @
     ''}'' @
     [CHR 0x0A]"

definition nested_program :: node where
  "nested_program = Node 0 Program (0, 73) None"

definition nested_outer :: node where
  "nested_outer = Node 1 (FunctionDeclaration []) (0, 72) (Some nested_program)"

definition nested_block :: node where
  "nested_block = Node 2 OtherNode (17, 72) (Some nested_outer)"

definition nested_alias :: node where
  "nested_alias =
     Node 3 (TSTypeAliasDeclaration ''P'' False (30, 43))
       (21, 44) (Some nested_block)"

definition nested_function :: node where
  "nested_function = Node 4 (FunctionDeclaration [5]) (47, 70) (Some nested_block)"

definition nested_param :: node where
  "nested_param = Node 5 Identifier (62, 66) (Some nested_function)"

definition nested_annotation :: node where
  "nested_annotation = Node 6 (TSTypeAnnotation (65, 66)) (63, 66) (Some nested_param)"

definition nested_reference :: node where
  "nested_reference = Node 7 (TSTypeReference (Some ''P'')) (65, 66) (Some nested_annotation)"

definition nested_source :: sourceCode where
  "nested_source = \<lparr>ast = nested_program, src_text = nested_text\<rparr>"

definition nested_order :: "node list" where
  "nested_order =
     [nested_program, nested_outer, nested_block, nested_alias, nested_function,
      nested_param, nested_annotation, nested_reference]"

text \<open>
  A declaration used once, as the annotation of a destructuring parameter with a default value.
  \<^verbatim>\<open>
  type P = { a: string };
  function f({ a }: P = x) {}
\<close>
\<close>

definition default_text :: string where
  "default_text =
     ''type P = { a: string };'' @
     [CHR 0x0A] @
     ''function f({ a }: P = x) {}'' @
     [CHR 0x0A]"

definition default_program :: node where
  "default_program = Node 0 Program (0, 52) None"

definition default_alias :: node where
  "default_alias =
     Node 1 (TSTypeAliasDeclaration ''P'' False (9, 22))
       (0, 23) (Some default_program)"

definition default_function :: node where
  "default_function = Node 2 (FunctionDeclaration [3]) (24, 51) (Some default_program)"

definition default_assignment :: node where
  "default_assignment = Node 3 AssignmentPattern (35, 47) (Some default_function)"

definition default_pattern :: node where
  "default_pattern = Node 4 ObjectPattern (35, 43) (Some default_assignment)"

definition default_annotation :: node where
  "default_annotation = Node 5 (TSTypeAnnotation (42, 43)) (40, 43) (Some default_pattern)"

definition default_reference :: node where
  "default_reference =
     Node 6 (TSTypeReference (Some ''P''))
       (42, 43) (Some default_annotation)"

definition default_source :: sourceCode where
  "default_source = \<lparr>ast = default_program, src_text = default_text\<rparr>"

definition default_order :: "node list" where
  "default_order =
     [default_program, default_alias, default_function, default_assignment, default_pattern,
      default_annotation, default_reference]"

text \<open>
  A declaration used once, as the annotation of a variable.
  \<^verbatim>\<open>
  type C = { e: boolean };
  const c: C = x;
\<close>
\<close>

definition variable_text :: string where
  "variable_text =
     ''type C = { e: boolean };'' @
     [CHR 0x0A] @
     ''const c: C = x;'' @
     [CHR 0x0A]"

definition variable_program :: node where
  "variable_program = Node 0 Program (0, 41) None"

definition variable_alias :: node where
  "variable_alias =
     Node 1 (TSTypeAliasDeclaration ''C'' False (9, 23))
       (0, 24) (Some variable_program)"

definition variable_declaration :: node where
  "variable_declaration = Node 2 OtherNode (25, 40) (Some variable_program)"

definition variable_declarator :: node where
  "variable_declarator =
     Node 3 (VariableDeclarator (Some Identifier))
       (31, 39) (Some variable_declaration)"

definition variable_name :: node where
  "variable_name = Node 4 Identifier (31, 35) (Some variable_declarator)"

definition variable_annotation :: node where
  "variable_annotation = Node 5 (TSTypeAnnotation (34, 35)) (32, 35) (Some variable_name)"

definition variable_reference :: node where
  "variable_reference =
     Node 6 (TSTypeReference (Some ''C''))
       (34, 35) (Some variable_annotation)"

definition variable_source :: sourceCode where
  "variable_source = \<lparr>ast = variable_program, src_text = variable_text\<rparr>"

definition variable_order :: "node list" where
  "variable_order =
     [variable_program, variable_alias, variable_declaration, variable_declarator,
      variable_name, variable_annotation, variable_reference]"

text \<open>
  A declaration used by two functions.
  \<^verbatim>\<open>
  type P = { a: string };
  function f(p: P) {}
  function g(q: P) {}
\<close>
\<close>

definition twice_text :: string where
  "twice_text =
     ''type P = { a: string };'' @
     [CHR 0x0A] @
     ''function f(p: P) {}'' @
     [CHR 0x0A] @
     ''function g(q: P) {}'' @
     [CHR 0x0A]"

definition twice_program :: node where
  "twice_program = Node 0 Program (0, 64) None"

definition twice_alias :: node where
  "twice_alias =
     Node 1 (TSTypeAliasDeclaration ''P'' False (9, 22))
       (0, 23) (Some twice_program)"

definition twice_function :: node where
  "twice_function = Node 2 (FunctionDeclaration [3]) (24, 43) (Some twice_program)"

definition twice_param :: node where
  "twice_param = Node 3 Identifier (35, 39) (Some twice_function)"

definition twice_annotation :: node where
  "twice_annotation = Node 4 (TSTypeAnnotation (38, 39)) (36, 39) (Some twice_param)"

definition twice_reference :: node where
  "twice_reference = Node 5 (TSTypeReference (Some ''P'')) (38, 39) (Some twice_annotation)"

definition twice_function2 :: node where
  "twice_function2 = Node 6 (FunctionDeclaration [7]) (44, 63) (Some twice_program)"

definition twice_param2 :: node where
  "twice_param2 = Node 7 Identifier (55, 59) (Some twice_function2)"

definition twice_annotation2 :: node where
  "twice_annotation2 = Node 8 (TSTypeAnnotation (58, 59)) (56, 59) (Some twice_param2)"

definition twice_reference2 :: node where
  "twice_reference2 = Node 9 (TSTypeReference (Some ''P'')) (58, 59) (Some twice_annotation2)"

definition twice_source :: sourceCode where
  "twice_source = \<lparr>ast = twice_program, src_text = twice_text\<rparr>"

definition twice_order :: "node list" where
  "twice_order =
     [twice_program, twice_alias, twice_function, twice_param, twice_annotation,
      twice_reference, twice_function2, twice_param2, twice_annotation2, twice_reference2]"

text \<open>
  A generic declaration used once, as the annotation of a parameter.
  \<^verbatim>\<open>
  type R<T> = { d: T };
  function f(r: R<string>) {}
\<close>
\<close>

definition generic_text :: string where
  "generic_text =
     ''type R<T> = { d: T };'' @
     [CHR 0x0A] @
     ''function f(r: R<string>) {}'' @
     [CHR 0x0A]"

definition generic_program :: node where
  "generic_program = Node 0 Program (0, 50) None"

definition generic_alias :: node where
  "generic_alias =
     Node 1 (TSTypeAliasDeclaration ''R'' True (12, 20))
       (0, 21) (Some generic_program)"

definition generic_body :: node where
  "generic_body = Node 2 OtherNode (12, 20) (Some generic_alias)"

definition generic_inner :: node where
  "generic_inner = Node 3 (TSTypeReference (Some ''T'')) (17, 18) (Some generic_body)"

definition generic_function :: node where
  "generic_function = Node 4 (FunctionDeclaration [5]) (22, 49) (Some generic_program)"

definition generic_param :: node where
  "generic_param = Node 5 Identifier (33, 45) (Some generic_function)"

definition generic_annotation :: node where
  "generic_annotation = Node 6 (TSTypeAnnotation (36, 45)) (34, 45) (Some generic_param)"

definition generic_reference :: node where
  "generic_reference =
     Node 7 (TSTypeReference (Some ''R''))
       (36, 45) (Some generic_annotation)"

definition generic_source :: sourceCode where
  "generic_source = \<lparr>ast = generic_program, src_text = generic_text\<rparr>"

definition generic_order :: "node list" where
  "generic_order =
     [generic_program, generic_alias, generic_body, generic_inner, generic_function,
      generic_param, generic_annotation, generic_reference]"

text \<open>
  An exported declaration used once, as the annotation of a destructured parameter.
  \<^verbatim>\<open>
  export type P = { a: string };
  export const f = ({ a }: P) => a;
\<close>
\<close>

definition exported_text :: string where
  "exported_text =
     ''export type P = { a: string };'' @
     [CHR 0x0A] @
     ''export const f = ({ a }: P) => a;'' @
     [CHR 0x0A]"

definition exported_program :: node where
  "exported_program = Node 0 Program (0, 65) None"

definition exported_export :: node where
  "exported_export = Node 1 ExportNamedDeclaration (0, 30) (Some exported_program)"

definition exported_alias :: node where
  "exported_alias =
     Node 2 (TSTypeAliasDeclaration ''P'' False (16, 29))
       (7, 30) (Some exported_export)"

definition exported_export2 :: node where
  "exported_export2 = Node 3 ExportNamedDeclaration (31, 64) (Some exported_program)"

definition exported_declaration :: node where
  "exported_declaration = Node 4 OtherNode (38, 64) (Some exported_export2)"

definition exported_declarator :: node where
  "exported_declarator =
     Node 5 (VariableDeclarator (Some (ArrowFunctionExpression [7])))
       (44, 63) (Some exported_declaration)"

definition exported_arrow :: node where
  "exported_arrow = Node 6 (ArrowFunctionExpression [7]) (48, 63) (Some exported_declarator)"

definition exported_pattern :: node where
  "exported_pattern = Node 7 ObjectPattern (49, 57) (Some exported_arrow)"

definition exported_annotation :: node where
  "exported_annotation = Node 8 (TSTypeAnnotation (56, 57)) (54, 57) (Some exported_pattern)"

definition exported_reference :: node where
  "exported_reference =
     Node 9 (TSTypeReference (Some ''P''))
       (56, 57) (Some exported_annotation)"

definition exported_source :: sourceCode where
  "exported_source = \<lparr>ast = exported_program, src_text = exported_text\<rparr>"

definition exported_order :: "node list" where
  "exported_order =
     [exported_program, exported_export, exported_alias, exported_export2,
      exported_declaration, exported_declarator, exported_arrow, exported_pattern,
      exported_annotation, exported_reference]"












text \<open>
  A declaration used once, as the annotation of a plain parameter, in a text with two-character line endings (CR LF).
  \<^verbatim>\<open>
  type P = { a: string };
  function f(p: P) {}
\<close>
\<close>

definition windows_text :: string where
  "windows_text =
     ''type P = { a: string };'' @
     [CHR 0x0D] @
     [CHR 0x0A] @
     ''function f(p: P) {}'' @
     [CHR 0x0D] @
     [CHR 0x0A]"

definition windows_program :: node where
  "windows_program = Node 0 Program (0, 46) None"

definition windows_alias :: node where
  "windows_alias =
     Node 1 (TSTypeAliasDeclaration ''P'' False (9, 22))
       (0, 23) (Some windows_program)"

definition windows_function :: node where
  "windows_function = Node 2 (FunctionDeclaration [3]) (25, 44) (Some windows_program)"

definition windows_param :: node where
  "windows_param = Node 3 Identifier (36, 40) (Some windows_function)"

definition windows_annotation :: node where
  "windows_annotation = Node 4 (TSTypeAnnotation (39, 40)) (37, 40) (Some windows_param)"

definition windows_reference :: node where
  "windows_reference =
     Node 5 (TSTypeReference (Some ''P''))
       (39, 40) (Some windows_annotation)"

definition windows_source :: sourceCode where
  "windows_source = \<lparr>ast = windows_program, src_text = windows_text\<rparr>"

definition windows_order :: "node list" where
  "windows_order =
     [windows_program, windows_alias, windows_function, windows_param, windows_annotation,
      windows_reference]"

text \<open>
  The first case of the test file of the rule that expects a report.
  \<^verbatim>\<open>
  type UserProps = {
    name: string;
    age: number;
  };
  const User = ({ name, age }: UserProps) => {
    return name;
  };
\<close>
\<close>

definition tested_text :: string where
  "tested_text =
     [CHR 0x0A] @
     ''type UserProps = {'' @
     [CHR 0x0A] @
     ''  name: string;'' @
     [CHR 0x0A] @
     ''  age: number;'' @
     [CHR 0x0A] @
     ''};'' @
     [CHR 0x0A] @
     [CHR 0x0A] @
     ''const User = ({ name, age }: UserProps) => {'' @
     [CHR 0x0A] @
     ''  return name;'' @
     [CHR 0x0A] @
     ''};'' @
     [CHR 0x0A] @
     ''      ''"

definition tested_program :: node where
  "tested_program = Node 0 Program (0, 124) None"

definition tested_alias :: node where
  "tested_alias =
     Node 1 (TSTypeAliasDeclaration ''UserProps'' False (18, 52))
       (1, 53) (Some tested_program)"

definition tested_declaration :: node where
  "tested_declaration = Node 2 OtherNode (55, 117) (Some tested_program)"

definition tested_declarator :: node where
  "tested_declarator =
     Node 3 (VariableDeclarator (Some (ArrowFunctionExpression [5])))
       (61, 116) (Some tested_declaration)"

definition tested_arrow :: node where
  "tested_arrow = Node 4 (ArrowFunctionExpression [5]) (68, 116) (Some tested_declarator)"

definition tested_pattern :: node where
  "tested_pattern = Node 5 ObjectPattern (69, 93) (Some tested_arrow)"

definition tested_annotation :: node where
  "tested_annotation = Node 6 (TSTypeAnnotation (84, 93)) (82, 93) (Some tested_pattern)"

definition tested_reference :: node where
  "tested_reference =
     Node 7 (TSTypeReference (Some ''UserProps''))
       (84, 93) (Some tested_annotation)"

definition tested_source :: sourceCode where
  "tested_source = \<lparr>ast = tested_program, src_text = tested_text\<rparr>"

definition tested_order :: "node list" where
  "tested_order =
     [tested_program, tested_alias, tested_declaration, tested_declarator, tested_arrow,
      tested_pattern, tested_annotation, tested_reference]"

text \<open>
  A declaration used once as the annotation of a parameter and once in the
  \<^verbatim>\<open>extends\<close> clause of another interface.
  \<^verbatim>\<open>
  interface B { x: string }
  interface A extends B { y: string }
  function f(p: B) {}
\<close>
\<close>

definition heritage_text :: string where
  "heritage_text =
     ''interface B { x: string }'' @
     [CHR 0x0A] @
     ''interface A extends B { y: string }'' @
     [CHR 0x0A] @
     ''function f(p: B) {}'' @
     [CHR 0x0A]"

definition heritage_program :: node where
  "heritage_program = Node 0 Program (0, 82) None"

definition heritage_base :: node where
  "heritage_base =
     Node 1 (TSInterfaceDeclaration ''B'' False (12, 25)) (0, 25) (Some heritage_program)"

definition heritage_derived :: node where
  "heritage_derived =
     Node 2 (TSInterfaceDeclaration ''A'' False (48, 61)) (26, 61) (Some heritage_program)"

definition heritage_clause :: node where
  "heritage_clause = Node 3 (TSInterfaceHeritage (Some ''B'')) (46, 47) (Some heritage_derived)"

definition heritage_function :: node where
  "heritage_function = Node 4 (FunctionDeclaration [5]) (62, 81) (Some heritage_program)"

definition heritage_param :: node where
  "heritage_param = Node 5 Identifier (73, 77) (Some heritage_function)"

definition heritage_annotation :: node where
  "heritage_annotation = Node 6 (TSTypeAnnotation (76, 77)) (74, 77) (Some heritage_param)"

definition heritage_reference :: node where
  "heritage_reference =
     Node 7 (TSTypeReference (Some ''B'')) (76, 77) (Some heritage_annotation)"

definition heritage_source :: sourceCode where
  "heritage_source = \<lparr>ast = heritage_program, src_text = heritage_text\<rparr>"

definition heritage_order :: "node list" where
  "heritage_order =
     [heritage_program, heritage_base, heritage_derived, heritage_clause,
      heritage_function, heritage_param, heritage_annotation, heritage_reference]"

section \<open>The maps after a traversal\<close>

lemmas heritage_defs =
  heritage_program_def heritage_base_def heritage_derived_def heritage_clause_def
  heritage_function_def heritage_param_def heritage_annotation_def heritage_reference_def
  heritage_text_def heritage_source_def heritage_order_def



lemmas literal_defs =
  literal_program_def literal_alias_def literal_function_def literal_param_def
  literal_annotation_def literal_typeLiteral_def literal_property_def
  literal_propertyAnnotation_def literal_reference_def literal_text_def
  literal_source_def literal_order_def

lemmas utility_defs =
  utility_program_def utility_alias_def utility_function_def utility_param_def
  utility_annotation_def utility_partial_def utility_arguments_def utility_reference_def
  utility_text_def utility_source_def utility_order_def

lemmas nested_defs =
  nested_program_def nested_outer_def nested_block_def nested_alias_def
  nested_function_def nested_param_def nested_annotation_def nested_reference_def
  nested_text_def nested_source_def nested_order_def

lemmas default_defs =
  default_program_def default_alias_def default_function_def default_assignment_def
  default_pattern_def default_annotation_def default_reference_def default_text_def
  default_source_def default_order_def

lemmas variable_defs =
  variable_program_def variable_alias_def variable_declaration_def
  variable_declarator_def variable_name_def variable_annotation_def
  variable_reference_def variable_text_def variable_source_def variable_order_def

lemmas twice_defs =
  twice_program_def twice_alias_def twice_function_def twice_param_def
  twice_annotation_def twice_reference_def twice_function2_def twice_param2_def
  twice_annotation2_def twice_reference2_def twice_text_def twice_source_def
  twice_order_def

lemmas generic_defs =
  generic_program_def generic_alias_def generic_body_def generic_inner_def
  generic_function_def generic_param_def generic_annotation_def generic_reference_def
  generic_text_def generic_source_def generic_order_def

lemmas exported_defs =
  exported_program_def exported_export_def exported_alias_def exported_export2_def
  exported_declaration_def exported_declarator_def exported_arrow_def
  exported_pattern_def exported_annotation_def exported_reference_def exported_text_def
  exported_source_def exported_order_def


lemmas windows_defs =
  windows_program_def windows_alias_def windows_function_def windows_param_def
  windows_annotation_def windows_reference_def windows_text_def windows_source_def
  windows_order_def

lemmas tested_defs =
  tested_program_def tested_alias_def tested_declaration_def tested_declarator_def
  tested_arrow_def tested_pattern_def tested_annotation_def tested_reference_def
  tested_text_def tested_source_def tested_order_def


lemma traverse_snoc: "traverse (order @ [n]) = visit (traverse order) n"
  by (simp add: traverse_def)

lemma visit_references:
  "map_of (typeReferences (visit st n)) name =
     (if isReferenceTo name n then Some (referenceList st name @ [n])
      else map_of (typeReferences st) name)"
  by (cases "kind n")
     (auto simp: visit_def on_TSTypeAliasDeclaration_def on_TSInterfaceDeclaration_def
        on_TSTypeReference_def record_definition_def isReferenceTo_def referenceList_def
        update_conv' Let_def split: option.splits)

lemma traverse_references:
  "map_of (typeReferences (traverse order)) name =
     (if referencesTo name order = [] then None else Some (referencesTo name order))"
proof (induction order rule: rev_induct)
  case Nil
  show ?case by (simp add: traverse_def init_state_def referencesTo_def)
next
  case (snoc n order)
  then show ?case
    by (simp add: traverse_snoc visit_references referencesTo_def referenceList_def)
qed

lemma visit_definitions:
  "map_of (typeDefinitions (visit st n)) name =
     (if declares name n then Some n else map_of (typeDefinitions st) name)"
  by (cases "kind n")
     (auto simp: visit_def on_TSTypeAliasDeclaration_def on_TSInterfaceDeclaration_def
        on_TSTypeReference_def record_definition_def declares_def
        update_conv' Let_def split: option.splits)

lemma traverse_definitions:
  "map_of (typeDefinitions (traverse order)) name =
     (if declarationsOf name order = [] then None
      else Some (last (declarationsOf name order)))"
proof (induction order rule: rev_induct)
  case Nil
  show ?case by (simp add: traverse_def init_state_def declarationsOf_def)
next
  case (snoc n order)
  then show ?case
    by (simp add: traverse_snoc visit_definitions declarationsOf_def)
qed

lemma visit_usage:
  "map_of (typeUsageCount (visit st n)) name =
     (if isReferenceTo name n then Some (usageCount st name + 1)
      else if declares name n \<and> map_of (typeUsageCount st) name = None then Some 0
      else map_of (typeUsageCount st) name)"
  by (cases "kind n")
     (auto simp: visit_def on_TSTypeAliasDeclaration_def on_TSInterfaceDeclaration_def
        on_TSTypeReference_def record_definition_def declares_def isReferenceTo_def
        usageCount_def update_conv' Let_def split: option.splits)

lemma traverse_usage:
  "map_of (typeUsageCount (traverse order)) name =
     (if declarationsOf name order = [] \<and> referencesTo name order = [] then None
      else Some (length (referencesTo name order)))"
proof (induction order rule: rev_induct)
  case Nil
  show ?case by (simp add: traverse_def init_state_def declarationsOf_def referencesTo_def)
next
  case (snoc n order)
  then show ?case
    by (auto simp add: traverse_snoc visit_usage declarationsOf_def referencesTo_def usageCount_def)
qed

lemma visit_distinct:
  "distinct (map fst (typeUsageCount st)) \<Longrightarrow> distinct (map fst (typeUsageCount (visit st n)))"
  by (cases "kind n")
     (auto simp: visit_def on_TSTypeAliasDeclaration_def on_TSInterfaceDeclaration_def
        on_TSTypeReference_def record_definition_def distinct_update Let_def split: option.splits)

lemma traverse_distinct: "distinct (map fst (typeUsageCount (traverse order)))"
proof (induction order rule: rev_induct)
  case Nil
  show ?case by (simp add: traverse_def init_state_def)
next
  case (snoc n order)
  then show ?case
    by (simp only: traverse_snoc visit_distinct)
qed


lemma visit_usageCount:
  "usageCount (visit st n) name =
     (if isReferenceTo name n then usageCount st name + 1 else usageCount st name)"
  by (simp add: usageCount_def visit_usage split: option.splits)

lemma visit_referenceList:
  "referenceList (visit st n) name =
     (if isReferenceTo name n then referenceList st name @ [n] else referenceList st name)"
  by (simp add: referenceList_def visit_references split: option.splits)

lemma report_entry_traverse:
  assumes "(name, c) \<in> set (typeUsageCount (traverse order))"
  shows "report_entry sc (traverse order) (name, c) = reportFor sc order name"
proof -
  have "map_of (typeUsageCount (traverse order)) name = Some c"
    using assms traverse_distinct by simp
  then have c: "c = length (referencesTo name order)"
    by (simp add: traverse_usage split: if_splits)
  show ?thesis
    by (cases "referencesTo name order"; cases "tl (referencesTo name order)")
       (auto simp: report_entry_def reportFor_def traverse_definitions traverse_references c
          Let_def)
qed

lemma reportFor_name: "reportFor sc order name = Some d \<Longrightarrow> typeName d = name"
  by (auto simp: reportFor_def split: if_splits list.splits)

lemma run_eq:
  "run sc order =
     List.map_filter (reportFor sc order) (map fst (typeUsageCount (traverse order)))"
proof -
  have "List.map_filter (report_entry sc (traverse order)) al =
        List.map_filter (reportFor sc order) (map fst al)"
    if "set al \<subseteq> set (typeUsageCount (traverse order))" for al
    using that
  proof (induction al)
    case Nil
    show ?case by simp
  next
    case (Cons e al)
    obtain name c where e: "e = (name, c)" by (cases e)
    with Cons.prems have "(name, c) \<in> set (typeUsageCount (traverse order))" by simp
    then have "report_entry sc (traverse order) e = reportFor sc order name"
      unfolding e by (rule report_entry_traverse)
    with Cons e show ?case by (simp split: option.splits)
  qed
  then show ?thesis by (simp add: run_def Program_exit_def)
qed

lemma reportFor_key:
  assumes "reportFor sc order name = Some d"
  shows "name \<in> set (map fst (typeUsageCount (traverse order)))"
proof -
  from assms have "declarationsOf name order \<noteq> []"
    by (auto simp: reportFor_def split: if_splits)
  then have "map_of (typeUsageCount (traverse order)) name \<noteq> None"
    by (simp add: traverse_usage)
  then show ?thesis
    by (metis map_of_eq_None_iff set_map)
qed

lemma in_run_iff: "d \<in> set (run sc order) \<longleftrightarrow> (\<exists>name. reportFor sc order name = Some d)"
proof
  assume "d \<in> set (run sc order)"
  then show "\<exists>name. reportFor sc order name = Some d"
    by (auto simp: run_eq map_filter_def)
next
  assume "\<exists>name. reportFor sc order name = Some d"
  then obtain name where n: "reportFor sc order name = Some d" ..
  from reportFor_key [OF n] n show "d \<in> set (run sc order)"
    by (force simp: run_eq map_filter_def)
qed

lemma map_filter_named:
  assumes "distinct ks" and "\<And>k d. f k = Some d \<Longrightarrow> typeName d = k"
  shows "filter (\<lambda>d. typeName d = name) (List.map_filter f ks) =
         (if name \<in> set ks then (case f name of None \<Rightarrow> [] | Some d \<Rightarrow> [d]) else [])"
  using assms(1)
proof (induction ks)
  case Nil
  show ?case by simp
next
  case (Cons k ks)
  show ?case
  proof (cases "f k")
    case None
    with Cons show ?thesis by auto
  next
    case (Some d)
    with assms(2) have "typeName d = k" by simp
    with Cons Some show ?thesis by (auto split: option.splits)
  qed
qed

lemma run_named:
  "filter (\<lambda>d. typeName d = name) (run sc order) =
     (case reportFor sc order name of None \<Rightarrow> [] | Some d \<Rightarrow> [d])"
proof -
  have "filter (\<lambda>d. typeName d = name) (run sc order) =
        (if name \<in> set (map fst (typeUsageCount (traverse order)))
         then (case reportFor sc order name of None \<Rightarrow> [] | Some d \<Rightarrow> [d]) else [])"
    unfolding run_eq
    by (rule map_filter_named) (simp_all add: traverse_distinct reportFor_name)
  then show ?thesis
    using reportFor_key [of sc order name] by (auto split: option.splits)
qed

section \<open>Where the context check succeeds\<close>

lemma declares_iff: "declares name n \<longleftrightarrow> declaredName n = Some name \<and> \<not> hasTypeParameters n"
  by (auto simp: declares_def declaredName_def hasTypeParameters_def split: kind.splits)

lemma last_declarationsOf:
  "declarationsOf name order \<noteq> [] \<Longrightarrow> declares name (last (declarationsOf name order))"
proof -
  assume "declarationsOf name order \<noteq> []"
  then have "last (declarationsOf name order) \<in> set (declarationsOf name order)"
    by (rule last_in_set)
  then show ?thesis by (simp add: declarationsOf_def)
qed

lemma reportFor_node:
  assumes "reportFor sc order name = Some d"
  shows "declares name (d_node d)"
proof -
  from assms have ne: "declarationsOf name order \<noteq> []"
    and d: "d_node d = last (declarationsOf name order)"
    by (auto simp: reportFor_def split: if_splits list.splits)
  from last_declarationsOf [OF ne] d show ?thesis by simp
qed

lemma reportFor_not_exported:
  "reportFor sc order name = Some d \<Longrightarrow> \<not> isExported (d_node d)"
  by (auto simp: reportFor_def split: if_splits list.splits)

lemma reportFor_reference:
  "reportFor sc order name = Some d \<Longrightarrow>
     \<exists>r. referencesTo name order = [r] \<and> isInFunctionParameter r \<and>
         d_fix d = fix_edits sc (d_node d) r"
  by (auto simp: reportFor_def split: if_splits list.splits)

lemma searchParams_step:
  "searchParams par (Some (Node i k r p)) =
     (case declaredParams k of
        Some ps \<Rightarrow> Some (nid par \<in> set ps)
      | None \<Rightarrow> searchParams par p)"
proof (cases k)
  case (VariableDeclarator init)
  show ?thesis
  proof (cases init)
    case None
    with VariableDeclarator show ?thesis by (simp add: declaredParams_def)
  next
    case (Some ik)
    with VariableDeclarator show ?thesis by (cases ik) (simp_all add: declaredParams_def)
  qed
qed (simp_all add: declaredParams_def)

lemma walkUp_step:
  "walkUp (Some (Node i k r p)) =
     (if isTypeAnnotation (Node i k r p) then
        (case p of
           None \<Rightarrow> False
         | Some par \<Rightarrow>
             if isPatternOrIdentifier (kind par) then
               (case searchParams par (parent par) of Some b \<Rightarrow> b | None \<Rightarrow> walkUp p)
             else walkUp p)
      else walkUp p)"
  by (cases k; cases p) (auto simp add: isTypeAnnotation_def)

lemma searchParams_declared:
  "searchParams par anc = Some True \<Longrightarrow> list_ex (declaresParameter par) (ancestors anc)"
proof (induction anc rule: ancestors.induct)
  case 1
  then show ?case by simp
next
  case (2 i k r p)
  show ?case
  proof (cases "declaredParams k")
    case None
    with 2 show ?thesis
      by (simp add: searchParams_step del: searchParams.simps)
  next
    case (Some ps)
    with "2.prems" show ?thesis
      by (simp add: searchParams_step declaresParameter_def del: searchParams.simps)
  qed
qed

lemma walkUp_inside: "walkUp x \<Longrightarrow> list_ex parameterAnnotation (ancestors x)"
proof (induction x rule: ancestors.induct)
  case 1
  then show ?case by simp
next
  case (2 i k r p)
  show ?case
  proof (cases "walkUp p")
    case True
    with 2 show ?thesis by simp
  next
    case False
    with "2.prems" obtain par where ta: "isTypeAnnotation (Node i k r p)" and p: "p = Some par"
      and pat: "isPatternOrIdentifier (kind par)"
      and s: "searchParams par (parent par) = Some True"
      by (auto simp: walkUp_step simp del: walkUp.simps split: option.splits if_splits)
    from searchParams_declared [OF s] have "declaredParameter par"
      by (simp add: declaredParameter_def)
    with ta p pat have "parameterAnnotation (Node i k r p)"
      by (simp add: parameterAnnotation_def)
    then show ?thesis by simp
  qed
qed

lemma isInFunctionParameter_inside:
  "isInFunctionParameter r \<Longrightarrow> insideParameterAnnotation r"
  by (simp add: isInFunctionParameter_def insideParameterAnnotation_def walkUp_inside)

lemma walkUp_node:
  "walkUp (Some n) =
     (if isTypeAnnotation n then
        (case parent n of
           None \<Rightarrow> False
         | Some par \<Rightarrow>
             if isPatternOrIdentifier (kind par) then
               (case searchParams par (parent par) of
                  Some b \<Rightarrow> b
                | None \<Rightarrow> walkUp (parent n))
             else walkUp (parent n))
      else walkUp (parent n))"
  by (cases n) (simp only: walkUp_step node.sel)

lemma searchParams_node:
  "searchParams par (Some n) =
     (case declaredParams (kind n) of
        Some ps \<Rightarrow> Some (nid par \<in> set ps)
      | None \<Rightarrow> searchParams par (parent n))"
  by (cases n) (simp only: searchParams_step node.sel)

lemma unaccepted_reference_not_reported:
  assumes "referencesTo name order = [r]" and "\<not> isInFunctionParameter r"
  shows "\<forall>d \<in> set (run sc order).
           typeName d \<noteq> name \<and> declaredName (d_node d) \<noteq> Some name"
proof
  fix d
  assume "d \<in> set (run sc order)"
  then obtain nm where nm: "reportFor sc order nm = Some d"
    by (auto simp: in_run_iff)
  then obtain r' where "referencesTo nm order = [r']" and "isInFunctionParameter r'"
    using reportFor_reference by blast
  with assms have "nm \<noteq> name" by auto
  moreover have "typeName d = nm" using nm by (rule reportFor_name)
  moreover have "declaredName (d_node d) = Some nm"
    using reportFor_node [OF nm] by (simp add: declares_iff)
  ultimately show "typeName d \<noteq> name \<and> declaredName (d_node d) \<noteq> Some name"
    by simp
qed

lemma direct_parameter_annotation_accepted:
  assumes "\<not> isTypeAnnotation r" and "parent r = Some a" and "isTypeAnnotation a"
    and "parent a = Some p" and "isPatternOrIdentifier (kind p)"
    and "parent p = Some f" and "declaredParams (kind f) = Some ps" and "nid p \<in> set ps"
  shows "isInFunctionParameter r"
proof -
  have "searchParams p (parent p) = Some True"
    using assms(6-8) by (simp add: searchParams_node)
  then have "walkUp (Some a)"
    using assms(3-5) by (subst walkUp_node) simp
  then have "walkUp (Some r)"
    using assms(1,2) by (subst walkUp_node) simp
  then show ?thesis by (simp add: isInFunctionParameter_def)
qed





section \<open>The edits of a fix\<close>

lemma trimmedEnd_terminator: "trimmedEnd txt e = e + lineTerminatorAt txt e"
proof (cases "e < length txt")
  case False
  then show ?thesis by (simp add: trimmedEnd_def lineTerminatorAt_def)
next
  case True
  then have d: "drop e txt = txt ! e # drop (Suc e) txt"
    by (simp add: Cons_nth_drop_Suc)
  show ?thesis
  proof (cases "Suc e < length txt")
    case False
    with True have "drop (Suc e) txt = []" by simp
    with d True False show ?thesis
      by (simp add: trimmedEnd_def lineTerminatorAt_def)
  next
    case True
    then have "drop (Suc e) txt = txt ! Suc e # drop (Suc (Suc e)) txt"
      by (simp add: Cons_nth_drop_Suc)
    with d True show ?thesis
      by (simp add: trimmedEnd_def lineTerminatorAt_def)
  qed
qed

lemma enclosingStatement_eq:
  "enclosingStatement n programNode = Some (getTopLevelStatement n programNode)"
proof -
  have "find (isTopLevel programNode) (ancestors x) =
        (case x of None \<Rightarrow> None | Some n \<Rightarrow> Some (getTopLevelStatement n programNode))" for x
  proof (induction x rule: ancestors.induct)
    case 1
    show ?case by simp
  next
    case (2 i k r p)
    then show ?case by (cases p) (auto simp: isTopLevel_def)
  qed
  from this [of "Some n"] show ?thesis by (simp add: enclosingStatement_def)
qed

lemma applyEdits_pair:
  assumes "fst r1 \<le> snd r1" and "fst r2 \<le> snd r2" and "\<not> overlap r1 r2"
  shows "applyEdits txt [(r1, []), (r2, body)] = Some (fixedText txt r1 r2 body)"
proof (cases "snd r1 \<le> fst r2")
  case True
  with assms have "\<not> editBefore (r2, body) (r1, [])"
    by (auto simp: editBefore_def)
  then have "sortEdits [(r1, []), (r2, body)] = [(r1, []), (r2, body)]"
    by (simp add: sortEdits_def)
  with True show ?thesis
    by (simp add: applyEdits_def fixedText_def slice_def)
next
  case False
  with assms have le: "snd r2 \<le> fst r1" by (auto simp: overlap_def)
  with False assms have "editBefore (r2, body) (r1, [])"
    by (auto simp: editBefore_def)
  then have "sortEdits [(r1, []), (r2, body)] = [(r2, body), (r1, [])]"
    by (simp add: sortEdits_def)
  with False le show ?thesis
    by (simp add: applyEdits_def fixedText_def slice_def)
qed

lemma fix_edits_Some:
  assumes "fix_edits sc def r = Some es"
  shows "\<exists>a ta b. parent r = Some a \<and> kind a = TSTypeAnnotation ta \<and> bodySpan def = Some b \<and>
           getText sc b \<noteq> [] \<and>
           es = [((fst (nrange (getTopLevelStatement def (ast sc))),
                   trimmedEnd (src_text sc) (snd (nrange (getTopLevelStatement def (ast sc))))), []),
                 (ta, getText sc b)]"
proof -
  from assms obtain body where body: "getTypeBody def sc = Some body" and ne: "body \<noteq> []"
    by (auto simp: fix_edits_def Let_def split: option.splits if_splits)
  from body obtain b where b: "bodySpan def = Some b" and gb: "body = getText sc b"
    by (cases "kind def") (auto simp: getTypeBody_def bodySpan_def)
  from assms body ne obtain a where a: "parent r = Some a"
    by (auto simp: fix_edits_def Let_def split: option.splits if_splits)
  from assms body ne a obtain ta where ta: "kind a = TSTypeAnnotation ta"
    by (cases "kind a") (auto simp: fix_edits_def Let_def)
  from assms body ne a ta b gb show ?thesis
    by (auto simp: fix_edits_def Let_def)
qed

lemma fix_edits_None:
  assumes "\<not> parentIsAnnotation r \<or> getTypeBody def sc = None \<or> getTypeBody def sc = Some []"
  shows "fix_edits sc def r = None"
proof (cases "getTypeBody def sc = None \<or> getTypeBody def sc = Some []")
  case True
  then show ?thesis by (auto simp: fix_edits_def Let_def)
next
  case False
  with assms have n: "\<not> parentIsAnnotation r" by simp
  show ?thesis
  proof (cases "parent r")
    case None
    then show ?thesis by (auto simp: fix_edits_def Let_def split: option.splits)
  next
    case (Some a)
    with n have "\<not> isTypeAnnotation a" by (simp add: parentIsAnnotation_def)
    with Some show ?thesis
      by (cases "kind a")
         (auto simp: fix_edits_def Let_def isTypeAnnotation_def split: option.splits)
  qed
qed

section \<open>Evaluation on the concrete trees\<close>

lemmas run_simps =
  run_def Program_exit_def traverse_def init_state_def visit_def
  on_TSTypeAliasDeclaration_def on_TSInterfaceDeclaration_def on_TSTypeReference_def
  record_definition_def report_entry_def isExported_def isInFunctionParameter_def
  isPatternOrIdentifier_def fix_edits_def getTypeBody_def getText_def slice_def
  trimmedEnd_def Let_def

lemmas context_simps =
  insideParameterAnnotation_def parameterAnnotation_def isTypeAnnotation_def
  isPatternOrIdentifier_def declaredParameter_def declaresParameter_def declaredParams_def


lemmas traversal_simps =
  referencesTo_def declarationsOf_def isReferenceTo_def declares_def

text \<open>
  The model on the first reporting case of the rule's own test file: one report, for
  \<^verbatim>\<open>UserProps\<close>, and the text after its fix is the output the test expects.
\<close>

lemma rule_tester_first_invalid_case:
  "map (\<lambda>d. (typeName d, map_option (applyEdits tested_text) (d_fix d)))
     (run tested_source tested_order) =
   [(''UserProps'',
     Some (Some ([CHR 0x0A, CHR 0x0A] @ ''const User = ({ name, age }: {'' @ [CHR 0x0A] @
                 ''  name: string;'' @ [CHR 0x0A] @ ''  age: number;'' @ [CHR 0x0A] @
                 ''}) => {'' @ [CHR 0x0A] @ ''  return name;'' @ [CHR 0x0A] @ ''};'' @
                 [CHR 0x0A] @ ''      '')))]"
proof -
  have "run tested_source tested_order =
      [\<lparr>d_node = tested_alias, typeName = ''UserProps'',
        d_fix = Some [((1, 54), []), ((84, 93), slice tested_text 18 52)]\<rparr>]"
    by (simp add: tested_defs run_simps)
  moreover have "applyEdits tested_text [((1, 54), []), ((84, 93), slice tested_text 18 52)] =
      Some (fixedText tested_text (1, 54) (84, 93) (slice tested_text 18 52))"
    by (rule applyEdits_pair) (simp_all add: overlap_def)
  ultimately show ?thesis
    by (simp add: fixedText_def slice_def tested_text_def)
qed

section \<open>The text after a fix\<close>

text \<open>
  What a fix is, and the text it gives when its two spans keep apart. A fix is the list of
  two edits: the removal of the span of the declaration's enclosing top-level statement,
  extended by the line terminator that follows it (LF, CR or CR LF, nothing when none
  follows), and the replacement of the span held by the annotation that is the
  reference's parent with the slice of the text at the body span of the declaration (the
  \<^verbatim>\<open>typeAnnotation\<close> of an alias, the \<^verbatim>\<open>body\<close> of an interface). When the two
  spans are well formed and do not overlap, applying the edits gives the original text
  without the removed span and with the body slice in the place of the replaced span.
\<close>

lemma fix_edits_round_trip:
  assumes "d \<in> set (run sc order)" and "d_fix d = Some es"
  shows "\<exists>r a ta b stmt.
           referencesTo (typeName d) order = [r] \<and> parent r = Some a \<and>
           kind a = TSTypeAnnotation ta \<and> bodySpan (d_node d) = Some b \<and>
           enclosingStatement (d_node d) (ast sc) = Some stmt \<and>
           es = [(removedSpan sc stmt, []), (ta, slice (src_text sc) (fst b) (snd b))] \<and>
           (fst (nrange stmt) \<le> snd (nrange stmt) \<and> fst ta \<le> snd ta \<and>
            \<not> overlap (removedSpan sc stmt) ta \<longrightarrow>
            applyEdits (src_text sc) es =
              Some (fixedText (src_text sc) (removedSpan sc stmt) ta
                      (slice (src_text sc) (fst b) (snd b))))"
proof -
  from assms(1) obtain nm where nm: "reportFor sc order nm = Some d"
    by (auto simp: in_run_iff)
  have name: "typeName d = nm" using nm by (rule reportFor_name)
  from reportFor_reference [OF nm] obtain r where r: "referencesTo nm order = [r]"
    and f: "d_fix d = fix_edits sc (d_node d) r" by blast
  define stmt where "stmt = getTopLevelStatement (d_node d) (ast sc)"
  from f assms(2) have "fix_edits sc (d_node d) r = Some es" by simp
  from fix_edits_Some [OF this] obtain a ta b where a: "parent r = Some a"
    and ta: "kind a = TSTypeAnnotation ta" and b: "bodySpan (d_node d) = Some b"
    and es: "es = [((fst (nrange stmt), trimmedEnd (src_text sc) (snd (nrange stmt))), []),
                   (ta, getText sc b)]"
    unfolding stmt_def by blast
  have st: "enclosingStatement (d_node d) (ast sc) = Some stmt"
    by (simp add: stmt_def enclosingStatement_eq)
  have es': "es = [(removedSpan sc stmt, []), (ta, slice (src_text sc) (fst b) (snd b))]"
    by (simp add: es removedSpan_def trimmedEnd_terminator getText_def)
  have "applyEdits (src_text sc) es =
          Some (fixedText (src_text sc) (removedSpan sc stmt) ta
                  (slice (src_text sc) (fst b) (snd b)))"
    if "fst (nrange stmt) \<le> snd (nrange stmt)" and "fst ta \<le> snd ta"
      and "\<not> overlap (removedSpan sc stmt) ta"
  proof -
    from that(1) have "fst (removedSpan sc stmt) \<le> snd (removedSpan sc stmt)"
      by (simp add: removedSpan_def)
    from applyEdits_pair [OF this that(2) that(3)] show ?thesis
      by (simp only: es')
  qed
  with r a ta b st es' name show ?thesis by blast
qed

text \<open>
  At a program with CR LF line endings both characters of the line ending go with the
  declaration.
\<close>

lemma fix_edits_round_trip_crlf:
  "\<lparr>d_node = windows_alias, typeName = ''P'', d_fix = Some [((0, 25), []), ((39, 40), ''{ a: string }'')]\<rparr>
     \<in> set (run windows_source windows_order) \<and>
   applyEdits windows_text [((0, 25), []), ((39, 40), ''{ a: string }'')] =
     Some (''function f(p: { a: string }) {}'' @ [CHR 0x0D, CHR 0x0A])"
proof -
  define d where "d = \<lparr>d_node = windows_alias, typeName = ''P'', d_fix = Some [((0, 25), []), ((39, 40), ''{ a: string }'')]\<rparr>"
  have h1: "d \<in> set (run windows_source windows_order)"
    by (simp add: d_def windows_defs run_simps)
  have h2: "d_fix d = Some [((0, 25), []), ((39, 40), ''{ a: string }'')]" by (simp add: d_def)
  from fix_edits_round_trip [OF h1 h2]
  obtain r a ta b stmt where
    r: "referencesTo (typeName d) windows_order = [r]" and a: "parent r = Some a"
    and ta: "kind a = TSTypeAnnotation ta" and b: "bodySpan (d_node d) = Some b"
    and stmt: "enclosingStatement (d_node d) (ast windows_source) = Some stmt"
    and ap: "fst (nrange stmt) \<le> snd (nrange stmt) \<and> fst ta \<le> snd ta \<and>
            \<not> overlap (removedSpan windows_source stmt) ta \<longrightarrow>
            applyEdits (src_text windows_source) [((0, 25), []), ((39, 40), ''{ a: string }'')] =
              Some (fixedText (src_text windows_source) (removedSpan windows_source stmt) ta
                      (slice (src_text windows_source) (fst b) (snd b)))"
    by blast
  have "referencesTo ''P'' windows_order = [windows_reference]"
    by (simp add: windows_defs traversal_simps)
  with r have r': "r = windows_reference" by (simp add: d_def)
  with a have a': "a = windows_annotation" by (simp add: windows_defs)
  with ta have ta': "ta = (39, 40)" by (simp add: windows_defs)
  from b have b': "b = (9, 22)" by (simp add: d_def windows_defs bodySpan_def)
  from stmt have stmt': "stmt = windows_alias"
    by (simp add: d_def windows_defs enclosingStatement_def isTopLevel_def)
  have rem: "removedSpan windows_source windows_alias = (0, 25)"
    by (simp add: windows_defs removedSpan_def lineTerminatorAt_def)
  from ap have "applyEdits windows_text [((0, 25), []), ((39, 40), ''{ a: string }'')] =
      Some (fixedText windows_text (0, 25) (39, 40) (slice windows_text 9 22))"
    unfolding stmt' ta' b' rem
    by (simp add: windows_defs overlap_def)
  moreover have "fixedText windows_text (0, 25) (39, 40) (slice windows_text 9 22) =
      ''function f(p: { a: string }) {}'' @ [CHR 0x0D, CHR 0x0A]"
    by (simp add: windows_text_def fixedText_def slice_def)
  ultimately show ?thesis using h1 by (simp add: d_def)
qed

section \<open>What the count decides\<close>

text \<open>
  A name with two or more type references in the traversed file (every type reference
  whose name is that identifier counts, wherever it is nested) gets no diagnostic: none
  carries the name and none is reported on a declaration of the name.
\<close>

lemma name_with_two_references_is_not_reported:
  assumes "2 \<le> length (referencesTo name order)"
  shows "\<forall>d \<in> set (run sc order). typeName d \<noteq> name \<and> declaredName (d_node d) \<noteq> Some name"
proof
  fix d
  assume "d \<in> set (run sc order)"
  then obtain nm where nm: "reportFor sc order nm = Some d"
    by (auto simp: in_run_iff)
  then obtain r where "referencesTo nm order = [r]"
    using reportFor_reference by blast
  with assms have "nm \<noteq> name" by auto
  moreover have "typeName d = nm" using nm by (rule reportFor_name)
  moreover have "declaredName (d_node d) = Some nm"
    using reportFor_node [OF nm] by (simp add: declares_iff)
  ultimately show "typeName d \<noteq> name \<and> declaredName (d_node d) \<noteq> Some name"
    by simp
qed

lemma name_with_two_references_is_not_reported_twice:
  "2 \<le> length (referencesTo ''P'' twice_order) \<and>
   declaredName twice_alias = Some ''P'' \<and>
   list_all (\<lambda>d. typeName d \<noteq> ''P'' \<and> declaredName (d_node d) \<noteq> Some ''P'')
     (run twice_source twice_order)"
proof -
  have h: "2 \<le> length (referencesTo ''P'' twice_order)"
    by (simp add: twice_defs referencesTo_def isReferenceTo_def)
  have "declaredName twice_alias = Some ''P''"
    by (simp add: twice_defs declaredName_def)
  with h name_with_two_references_is_not_reported [OF h, of twice_source] show ?thesis
    by (simp add: list_all_iff)
qed

section \<open>The claims\<close>




text \<open>
  C2. Not every fix has a fixed text. For a declaration inside a function body that is
  used by a function of the same body a fix is emitted: it removes the whole outer
  function (with the line terminator after it) and replaces the annotation inside it by
  the body text. The two edits cannot be applied in one pass, so there is no fixed text,
  and in particular not the text the claim describes.
\<close>

theorem nested_declaration_fix_has_no_fixed_text:
  "map d_fix (run nested_source nested_order) =
     [Some [((0, 73), []), ((65, 66), ''{ a: string }'')]] \<and>
   removedSpan nested_source nested_outer = (0, 73) \<and>
   slice nested_text 30 43 = ''{ a: string }'' \<and>
   applyEdits nested_text [((0, 73), []), ((65, 66), ''{ a: string }'')] = None \<and>
   applyEdits nested_text [((0, 73), []), ((65, 66), ''{ a: string }'')] \<noteq>
     Some (fixedText nested_text (0, 73) (65, 66) ''{ a: string }'')"
proof -
  have "map d_fix (run nested_source nested_order) =
     [Some [((0, 73), []), ((65, 66), ''{ a: string }'')]]"
    by (simp add: nested_defs run_simps)
  moreover have "removedSpan nested_source nested_outer = (0, 73)"
    by (simp add: nested_defs removedSpan_def lineTerminatorAt_def)
  moreover have "slice nested_text 30 43 = ''{ a: string }''"
    by (simp add: nested_text_def slice_def)
  moreover have n: "applyEdits nested_text [((0, 73), []), ((65, 66), ''{ a: string }'')] = None"
    by (simp add: applyEdits_def sortEdits_def editBefore_def)
  ultimately show ?thesis by simp
qed

text \<open>
  C3. The two edit ranges of a fix do not always keep apart. For a declaration inside a
  function body that is used by a function of the same body, the removed range is the
  whole outer function and holds the replaced range; a consumer that applies edits in one
  pass refuses the pair.
\<close>

theorem nested_declaration_fix_overlaps:
  "run nested_source nested_order =
     [\<lparr>d_node = nested_alias, typeName = ''P'',
       d_fix = Some [((0, 73), []), ((65, 66), ''{ a: string }'')]\<rparr>] \<and>
   enclosingStatement nested_alias (ast nested_source) = Some nested_outer \<and>
   parent nested_reference = Some nested_annotation \<and>
   kind nested_annotation = TSTypeAnnotation (65, 66) \<and>
   overlap (0, 73) (65, 66) \<and>
   applyEdits nested_text [((0, 73), []), ((65, 66), ''{ a: string }'')] = None"
proof -
  have "run nested_source nested_order =
     [\<lparr>d_node = nested_alias, typeName = ''P'',
       d_fix = Some [((0, 73), []), ((65, 66), ''{ a: string }'')]\<rparr>]"
    by (simp add: nested_defs run_simps)
  moreover have "enclosingStatement nested_alias (ast nested_source) = Some nested_outer"
    by (simp add: nested_defs enclosingStatement_def isTopLevel_def)
  moreover have "parent nested_reference = Some nested_annotation"
    and "kind nested_annotation = TSTypeAnnotation (65, 66)"
    by (simp_all add: nested_defs)
  moreover have "overlap (0, 73) (65, 66)" by (simp add: overlap_def)
  moreover have "applyEdits nested_text [((0, 73), []), ((65, 66), ''{ a: string }'')] = None"
    by (simp add: applyEdits_def sortEdits_def editBefore_def)
  ultimately show ?thesis by simp
qed

text \<open>
  C4, as amended. When a name is eligible (its last recorded declaration is not exported,
  it has exactly one reference and \<^verbatim>\<open>isInFunctionParameter\<close> accepts it) and either the
  parent of the reference is not a type annotation node, or the body text is null or
  empty, the diagnostic is reported and carries no fix.
\<close>

theorem unrewritable_reference_is_reported_without_fix:
  assumes "declarationsOf name order \<noteq> []"
    and "\<not> isExported (last (declarationsOf name order))"
    and "referencesTo name order = [r]"
    and "isInFunctionParameter r"
    and "\<not> parentIsAnnotation r \<or>
         getTypeBody (last (declarationsOf name order)) sc = None \<or>
         getTypeBody (last (declarationsOf name order)) sc = Some []"
  shows "filter (\<lambda>d. typeName d = name) (run sc order) =
           [\<lparr>d_node = last (declarationsOf name order), typeName = name, d_fix = None\<rparr>]"
proof -
  have "fix_edits sc (last (declarationsOf name order)) r = None"
    using assms(5) by (rule fix_edits_None)
  with assms(1-4) have "reportFor sc order name =
      Some \<lparr>d_node = last (declarationsOf name order), typeName = name, d_fix = None\<rparr>"
    by (simp add: reportFor_def)
  then show ?thesis by (simp add: run_named)
qed

text \<open>
  The amended statement at a reference that is the type argument of a utility type.
\<close>

theorem unrewritable_reference_is_reported_without_fix_witness:
  "declarationsOf ''T'' utility_order \<noteq> [] \<and>
   \<not> isExported (last (declarationsOf ''T'' utility_order)) \<and>
   referencesTo ''T'' utility_order = [utility_reference] \<and>
   isInFunctionParameter utility_reference \<and>
   \<not> parentIsAnnotation utility_reference \<and>
   filter (\<lambda>d. typeName d = ''T'') (run utility_source utility_order) =
     [\<lparr>d_node = utility_alias, typeName = ''T'', d_fix = None\<rparr>]"
proof -
  have d: "declarationsOf ''T'' utility_order = [utility_alias]"
    by (simp add: utility_defs traversal_simps)
  have h1: "declarationsOf ''T'' utility_order \<noteq> []" by (simp add: d)
  have h2: "\<not> isExported (last (declarationsOf ''T'' utility_order))"
    by (simp add: d) (simp add: utility_defs isExported_def)
  have h3: "referencesTo ''T'' utility_order = [utility_reference]"
    by (simp add: utility_defs traversal_simps)
  have h4: "isInFunctionParameter utility_reference"
    by (simp add: utility_defs isInFunctionParameter_def isPatternOrIdentifier_def)
  have n: "\<not> parentIsAnnotation utility_reference"
    by (simp add: utility_defs parentIsAnnotation_def isTypeAnnotation_def)
  then have h5: "\<not> parentIsAnnotation utility_reference \<or>
      getTypeBody (last (declarationsOf ''T'' utility_order)) utility_source = None \<or>
      getTypeBody (last (declarationsOf ''T'' utility_order)) utility_source = Some []"
    by simp
  from unrewritable_reference_is_reported_without_fix [OF h1 h2 h3 h4 h5]
  have "filter (\<lambda>d. typeName d = ''T'') (run utility_source utility_order) =
     [\<lparr>d_node = utility_alias, typeName = ''T'', d_fix = None\<rparr>]"
    by (simp add: d)
  with h1 h2 h3 h4 n show ?thesis by simp
qed

text \<open>
  C4 as stated fails where the reference is the type of a property inside a type literal
  that annotates the parameter: the parent of the reference is the property's annotation,
  not the parameter's, and the fix is still emitted.
\<close>

theorem fix_inside_type_literal_counterexample:
  "declarationsOf ''T'' literal_order = [literal_alias] \<and>
   \<not> isExported literal_alias \<and> \<not> hasTypeParameters literal_alias \<and>
   referencesTo ''T'' literal_order = [literal_reference] \<and>
   isInFunctionParameter literal_reference \<and>
   parent literal_reference = Some literal_propertyAnnotation \<and>
   \<not> parameterAnnotation literal_propertyAnnotation \<and>
   parameterAnnotation literal_annotation \<and>
   run literal_source literal_order =
     [\<lparr>d_node = literal_alias, typeName = ''T'',
       d_fix = Some [((0, 24), []), ((43, 44), ''{ a: string }'')]\<rparr>]"
proof -
  have "declarationsOf ''T'' literal_order = [literal_alias]"
    and "\<not> isExported literal_alias" and "\<not> hasTypeParameters literal_alias"
    and "referencesTo ''T'' literal_order = [literal_reference]"
    and "parent literal_reference = Some literal_propertyAnnotation"
    by (simp_all add: literal_defs traversal_simps isExported_def hasTypeParameters_def)
  moreover have "isInFunctionParameter literal_reference"
    by (simp add: literal_defs isInFunctionParameter_def isPatternOrIdentifier_def)
  moreover have "\<not> parameterAnnotation literal_propertyAnnotation"
    and "parameterAnnotation literal_annotation"
    by (simp_all add: literal_defs context_simps)
  moreover have "run literal_source literal_order =
     [\<lparr>d_node = literal_alias, typeName = ''T'',
       d_fix = Some [((0, 24), []), ((43, 44), ''{ a: string }'')]\<rparr>]"
    by (simp add: literal_defs run_simps)
  ultimately show ?thesis by simp
qed

text \<open>
  C5. Not every use of a name in type position is counted. The handler counts type
  references only, so a name that an interface extends and that annotates one parameter
  has two uses in type position and a usage count of 1: it is reported, and the fix
  removes its declaration while the \<^verbatim>\<open>extends\<close> clause still names it.
\<close>

theorem heritage_use_is_not_counted:
  "typePositionUses ''B'' heritage_order = [heritage_clause, heritage_reference] \<and>
   referencesTo ''B'' heritage_order = [heritage_reference] \<and>
   usageCount (traverse heritage_order) ''B'' = 1 \<and>
   run heritage_source heritage_order =
     [\<lparr>d_node = heritage_base, typeName = ''B'',
       d_fix = Some [((0, 26), []), ((76, 77), ''{ x: string }'')]\<rparr>] \<and>
   applyEdits heritage_text [((0, 26), []), ((76, 77), ''{ x: string }'')] =
     Some (''interface A extends B { y: string }'' @ [CHR 0x0A] @
           ''function f(p: { x: string }) {}'' @ [CHR 0x0A])"
proof -
  have "typePositionUses ''B'' heritage_order = [heritage_clause, heritage_reference]"
    by (simp add: heritage_defs typePositionUses_def isTypePositionUse_def)
  moreover have "referencesTo ''B'' heritage_order = [heritage_reference]"
    by (simp add: heritage_defs traversal_simps)
  moreover have "usageCount (traverse heritage_order) ''B'' = 1"
    by (simp add: heritage_defs usageCount_def traverse_def init_state_def visit_def
        on_TSInterfaceDeclaration_def on_TSTypeReference_def record_definition_def)
  moreover have "run heritage_source heritage_order =
     [\<lparr>d_node = heritage_base, typeName = ''B'',
       d_fix = Some [((0, 26), []), ((76, 77), ''{ x: string }'')]\<rparr>]"
    by (simp add: heritage_defs run_simps)
  moreover have "applyEdits heritage_text [((0, 26), []), ((76, 77), ''{ x: string }'')] =
     Some (''interface A extends B { y: string }'' @ [CHR 0x0A] @
           ''function f(p: { x: string }) {}'' @ [CHR 0x0A])"
    by (simp add: applyEdits_def sortEdits_def editBefore_def slice_def heritage_text_def)
  ultimately show ?thesis by simp
qed

text \<open>
  C6. When the single reference to a name has no enclosing annotation that is attached
  to a declared parameter of a function (so it sits in a variable annotation, a return
  type, a class member), the name gets no diagnostic.
\<close>

theorem reference_outside_parameter_annotation_is_not_reported:
  assumes "referencesTo name order = [r]" and "\<not> insideParameterAnnotation r"
  shows "\<forall>d \<in> set (run sc order).
           typeName d \<noteq> name \<and> declaredName (d_node d) \<noteq> Some name"
proof -
  from assms(2) have "\<not> isInFunctionParameter r"
    using isInFunctionParameter_inside by blast
  with assms(1) show ?thesis
    by (rule unaccepted_reference_not_reported)
qed

theorem reference_outside_parameter_annotation_is_not_reported_witness:
  "referencesTo ''C'' variable_order = [variable_reference] \<and>
   \<not> insideParameterAnnotation variable_reference \<and>
   declaredName variable_alias = Some ''C'' \<and>
   list_all (\<lambda>d. typeName d \<noteq> ''C'' \<and> declaredName (d_node d) \<noteq> Some ''C'')
     (run variable_source variable_order)"
proof -
  have h1: "referencesTo ''C'' variable_order = [variable_reference]"
    by (simp add: variable_defs referencesTo_def isReferenceTo_def)
  have h2: "\<not> insideParameterAnnotation variable_reference"
    by (simp add: variable_defs insideParameterAnnotation_def parameterAnnotation_def
        isTypeAnnotation_def isPatternOrIdentifier_def declaredParameter_def
        declaresParameter_def declaredParams_def)
  have "declaredName variable_alias = Some ''C''"
    by (simp add: variable_defs declaredName_def)
  with h1 h2
    reference_outside_parameter_annotation_is_not_reported [OF h1 h2, of variable_source]
  show ?thesis by (simp add: list_all_iff)
qed

text \<open>
  C7. A declaration whose parent is an export declaration (named or default) is never
  the node of a diagnostic, whatever the traversal holds.
\<close>

theorem exported_declaration_is_not_reported:
  assumes "isExported def"
  shows "\<forall>d \<in> set (run sc order). d_node d \<noteq> def"
proof
  fix d
  assume "d \<in> set (run sc order)"
  then obtain nm where "reportFor sc order nm = Some d"
    by (auto simp: in_run_iff)
  then have "\<not> isExported (d_node d)" by (rule reportFor_not_exported)
  with assms show "d_node d \<noteq> def" by auto
qed

theorem exported_declaration_is_not_reported_witness:
  "isExported exported_alias \<and>
   list_all (\<lambda>d. d_node d \<noteq> exported_alias) (run exported_source exported_order)"
proof -
  have h: "isExported exported_alias"
    by (simp add: exported_defs isExported_def)
  with exported_declaration_is_not_reported [OF h, of exported_source exported_order]
  show ?thesis by (simp add: list_all_iff)
qed

text \<open>
  C8. A declaration with type parameters is skipped when it is visited: it is never the
  recorded definition of any name, and never the node of a diagnostic.
\<close>

theorem generic_declaration_is_not_reported:
  assumes "hasTypeParameters def"
  shows "(\<forall>nm. map_of (typeDefinitions (traverse order)) nm \<noteq> Some def) \<and>
         (\<forall>d \<in> set (run sc order). d_node d \<noteq> def)"
proof
  show "\<forall>nm. map_of (typeDefinitions (traverse order)) nm \<noteq> Some def"
  proof
    fix nm
    show "map_of (typeDefinitions (traverse order)) nm \<noteq> Some def"
    proof
      assume "map_of (typeDefinitions (traverse order)) nm = Some def"
      then have "declarationsOf nm order \<noteq> []" and "def = last (declarationsOf nm order)"
        by (auto simp: traverse_definitions split: if_splits)
      then have "declares nm def" using last_declarationsOf by simp
      with assms show False by (simp add: declares_iff)
    qed
  qed
  show "\<forall>d \<in> set (run sc order). d_node d \<noteq> def"
  proof
    fix d
    assume "d \<in> set (run sc order)"
    then obtain nm where "reportFor sc order nm = Some d"
      by (auto simp: in_run_iff)
    then have "declares nm (d_node d)" by (rule reportFor_node)
    with assms show "d_node d \<noteq> def" by (auto simp: declares_iff)
  qed
qed

theorem generic_declaration_is_not_reported_witness:
  "hasTypeParameters generic_alias \<and>
   (\<forall>nm. map_of (typeDefinitions (traverse generic_order)) nm \<noteq> Some generic_alias) \<and>
   list_all (\<lambda>d. d_node d \<noteq> generic_alias) (run generic_source generic_order)"
proof -
  have h: "hasTypeParameters generic_alias"
    by (simp add: generic_defs hasTypeParameters_def)
  with generic_declaration_is_not_reported [OF h, of generic_order generic_source]
  show ?thesis by (simp add: list_all_iff)
qed

text \<open>
  C9. At every point of the traversal (after any number of visited nodes, so in
  particular when \<^verbatim>\<open>Program:exit\<close> runs), the usage count of every name equals the
  length of its reference list; a name with no entry in a map counts as 0 there. A visit
  of a reference to the name adds one to its count and appends the node to its list; any
  other visit leaves both as they are.
\<close>

theorem usage_count_equals_reference_list_length:
  "usageCount (traverse order) name = length (referenceList (traverse order) name) \<and>
   usageCount (visit st n) name =
     (if isReferenceTo name n then usageCount st name + 1 else usageCount st name) \<and>
   referenceList (visit st n) name =
     (if isReferenceTo name n then referenceList st name @ [n] else referenceList st name)"
proof -
  have "usageCount (traverse order) name = length (referenceList (traverse order) name)"
  proof (induction order rule: rev_induct)
    case Nil
    show ?case
      by (simp add: traverse_def init_state_def usageCount_def referenceList_def)
  next
    case (snoc n order)
    then show ?case
      by (simp add: traverse_snoc visit_usageCount visit_referenceList)
  qed
  then show ?thesis
    by (simp only: visit_usageCount visit_referenceList simp_thms)
qed

text \<open>
  C10. When the single reference to a name is the type of the annotation of an object or
  array pattern, the pattern is the left side of an assignment pattern, and the function
  above lists the assignment pattern and not the pattern among its parameters, the
  context check returns false and the name gets no diagnostic.
\<close>

theorem defaulted_pattern_parameter_is_not_reported:
  assumes refs: "referencesTo name order = [r]"
    and ra: "parent r = Some a" and ta: "isTypeAnnotation a"
    and ap: "parent a = Some p" and pk: "kind p = ObjectPattern \<or> kind p = ArrayPattern"
    and pw: "parent p = Some w" and wk: "kind w = AssignmentPattern"
    and wf: "parent w = Some f"
    and fk: "kind f = FunctionDeclaration ps \<or> kind f = FunctionExpression ps \<or>
             kind f = ArrowFunctionExpression ps"
    and listed: "nid w \<in> set ps" and unlisted: "nid p \<notin> set ps"
  shows "\<not> isInFunctionParameter r \<and>
         (\<forall>d \<in> set (run sc order).
            typeName d \<noteq> name \<and> declaredName (d_node d) \<noteq> Some name)"
proof -
  from refs have "r \<in> set (referencesTo name order)" by simp
  then have "kind r = TSTypeReference (Some name)"
    by (simp add: referencesTo_def isReferenceTo_def)
  then have r: "\<not> isTypeAnnotation r" by (simp add: isTypeAnnotation_def)
  from fk have f: "declaredParams (kind f) = Some ps"
    by (auto simp: declaredParams_def)
  from wk have w: "declaredParams (kind w) = None"
    by (simp add: declaredParams_def)
  have "searchParams p (parent p) = Some (nid p \<in> set ps)"
    by (simp only: pw wf searchParams_node w f option.case)
  with unlisted have s: "searchParams p (parent p) = Some False" by simp
  from pk have pat: "isPatternOrIdentifier (kind p)"
    by (auto simp: isPatternOrIdentifier_def)
  have "walkUp (Some a) = False"
    by (subst walkUp_node) (simp add: ta ap pat s)
  then have "\<not> walkUp (Some r)"
    by (subst walkUp_node) (simp add: r ra)
  then have n: "\<not> isInFunctionParameter r" by (simp add: isInFunctionParameter_def)
  from unaccepted_reference_not_reported [OF refs n] n show ?thesis by simp
qed

theorem defaulted_pattern_parameter_is_not_reported_witness:
  "referencesTo ''P'' default_order = [default_reference] \<and>
   parent default_reference = Some default_annotation \<and>
   isTypeAnnotation default_annotation \<and>
   parent default_annotation = Some default_pattern \<and>
   kind default_pattern = ObjectPattern \<and>
   parent default_pattern = Some default_assignment \<and>
   kind default_assignment = AssignmentPattern \<and>
   parent default_assignment = Some default_function \<and>
   kind default_function = FunctionDeclaration [3] \<and>
   nid default_assignment = 3 \<and> nid default_pattern = 4 \<and>
   \<not> isInFunctionParameter default_reference \<and>
   list_all (\<lambda>d. typeName d \<noteq> ''P'' \<and> declaredName (d_node d) \<noteq> Some ''P'')
     (run default_source default_order)"
proof -
  have h1: "referencesTo ''P'' default_order = [default_reference]"
    by (simp add: default_defs referencesTo_def isReferenceTo_def)
  have h2: "parent default_reference = Some default_annotation"
    and h3: "isTypeAnnotation default_annotation"
    and h4: "parent default_annotation = Some default_pattern"
    and h5: "kind default_pattern = ObjectPattern \<or> kind default_pattern = ArrayPattern"
    and h6: "parent default_pattern = Some default_assignment"
    and h7: "kind default_assignment = AssignmentPattern"
    and h8: "parent default_assignment = Some default_function"
    and h9: "kind default_function = FunctionDeclaration [3] \<or>
             kind default_function = FunctionExpression [3] \<or>
             kind default_function = ArrowFunctionExpression [3]"
    and h10: "nid default_assignment \<in> set [3]"
    and h11: "nid default_pattern \<notin> set [3]"
    by (simp_all add: default_defs isTypeAnnotation_def)
  from defaulted_pattern_parameter_is_not_reported
    [OF h1 h2 h3 h4 h5 h6 h7 h8 h9 h10 h11, of default_source]
  have "\<not> isInFunctionParameter default_reference \<and>
        list_all (\<lambda>d. typeName d \<noteq> ''P'' \<and> declaredName (d_node d) \<noteq> Some ''P'')
          (run default_source default_order)"
    by (simp add: list_all_iff)
  moreover have "kind default_pattern = ObjectPattern"
    and "kind default_function = FunctionDeclaration [3]"
    and "nid default_assignment = 3" and "nid default_pattern = 4"
    by (simp_all add: default_defs)
  ultimately show ?thesis using h1 h2 h3 h4 h6 h7 h8 by simp
qed

end
